theory Spec2Isabelle
  imports Main "HOL-Library.Multiset" "HOL-Library.AList"
begin

section \<open>The manifest manager (manifest/manifest_manager.go)\<close>

text \<open>
  A shallow embedding of the manifest manager. The manager's fields are a record that
  every operation takes and returns; errors are values; the block store and the JSON and
  gzip libraries are collaborators whose answers are taken from an environment record;
  every call that reaches the block store is appended to a trace, so that statements
  about which blocks were written or deleted can be made.
\<close>

subsection \<open>Data\<close>

type_synonym bytes = string
type_synonym ContentID = string

text \<open>
  A \<^verbatim>\<open>time.Time\<close> produced by \<^verbatim>\<open>time.Now().UTC()\<close> carries no monotonic reading, so
  \<^verbatim>\<open>After\<close> and \<^verbatim>\<open>Before\<close> compare instants: an instant is an integer count of
  nanoseconds.
\<close>

type_synonym Time = int

text \<open>
  A label set is a Go \<^verbatim>\<open>map[string]string\<close>. It is an association list whose order
  stands for the order in which \<^verbatim>\<open>range\<close> visits it; indexing it is \<open>label\<close>: a missing
  key reads as the empty string, as in Go.
\<close>

type_synonym labels = "(string \<times> string) list"

definition label :: "labels \<Rightarrow> string \<Rightarrow> string" where
  "label a k = (case map_of a k of None \<Rightarrow> [] | Some v \<Rightarrow> v)"

text \<open>
  The entry type is declared outside the files at hand; its fields are the ones the
  manager reads and writes: \<^verbatim>\<open>ID\<close>, \<^verbatim>\<open>ModTime\<close>, \<^verbatim>\<open>Labels\<close>, \<^verbatim>\<open>Deleted\<close>,
  \<^verbatim>\<open>Content\<close>. The manager never writes to an entry after building it, so the pointers
  \<^verbatim>\<open>*manifestEntry\<close> are modelled by the values they point to.
\<close>

record manifestEntry =
  ID :: string
  ModTime :: Time
  Labels :: labels
  Deleted :: bool
  Content :: bytes

record manifest =
  Entries :: "manifestEntry list"

record EntryMetadata =
  md_ID :: string
  md_ModTime :: Time
  md_Length :: nat
  md_Labels :: labels

text \<open>
  Modelled from the spec: \<^verbatim>\<open>block.Info\<close>, the element type of what \<^verbatim>\<open>ListBlocks\<close>
  returns, is declared in package \<^verbatim>\<open>block\<close>; the spec gives it an identifier, a
  timestamp and a length. The manager reads \<^verbatim>\<open>BlockID\<close> only.
\<close>

record block_Info =
  BlockID :: ContentID
  Timestamp :: Time
  Length :: nat

text \<open>
  One constructor for every place where the manager makes an error. \<open>External\<close> is an
  error value handed over by a collaborator (block store, JSON, gzip, random source),
  carrying its message; the other constructors with an \<open>error\<close> argument are the
  \<^verbatim>\<open>fmt.Errorf("...: %v", err)\<close> wrappers, and the ones with a \<open>ContentID\<close> are those
  whose message quotes the block identifier with \<^verbatim>\<open>%q\<close>.
\<close>

datatype error =
    ErrNotFound
  | External string
  | TypeLabelRequired
  | CantInitializeRandomness error
  | UnableToUnmarshal string error
  | UnableToMarshal error
  | UnableToFlush error
  | UnableToClose error
  | UnableToListManifestBlocks error
  | UnableToLoadManifestBlocks error
  | UnableToCompactManifestBlocks error
  | UnableToFlushBlocksAfterAutoCompaction error
  | UnableToReadBlock ContentID error
  | UnableToParseBlock ContentID error
  | UnableToUnpackBlock ContentID error
  | UnableToDeleteBlock ContentID error

definition manifestBlockPrefix :: string where
  "manifestBlockPrefix = ''m''"

definition autoCompactionBlockCount :: nat where
  "autoCompactionBlockCount = 16"

record Manager =
  entries :: "string \<rightharpoonup> manifestEntry"
  blockIDs :: "ContentID list"
  pendingEntries :: "manifestEntry list"

subsection \<open>Collaborators\<close>

text \<open>The calls that reach the block store, in the order they are made.\<close>

datatype call =
    WriteBlock_call bytes string
  | GetBlock_call ContentID
  | ListBlocks_call string
  | DeleteBlock_call ContentID
  | Flush_call

text \<open>
  Modelled from the spec: the block store (\<^verbatim>\<open>block.Manager\<close>) and the encoding
  libraries are not part of the files at hand. Each answer of the block store is a
  function of the calls made so far and of the arguments, which covers every
  deterministic store, failing or not, cancelled context included. The \<open>string\<close> of a
  failure is the collaborator's message.
  \<^item> \<open>store_write\<close> answers \<^verbatim>\<open>WriteBlock\<close> with the hash part of the identifier;
  \<^item> \<open>store_get\<close>, \<open>store_list\<close>, \<open>store_delete\<close>, \<open>store_flush\<close> answer
    \<^verbatim>\<open>GetBlock\<close>, \<^verbatim>\<open>ListBlocks\<close>, \<^verbatim>\<open>DeleteBlock\<close> and \<^verbatim>\<open>Flush\<close>;
  \<^item> \<open>json_Encode\<close>, \<open>gz_Flush\<close>, \<open>gz_Close\<close> are the three fallible steps of writing
    a manifest through the gzip writer, and \<open>buf_Bytes\<close> is what the buffer then holds;
  \<^item> \<open>json_Unmarshal\<close> parses an uncompressed document, \<open>gzip_NewReader\<close> reads the
    gzip header, \<open>json_Decode\<close> parses the document read through the gzip reader.
\<close>

record env =
  store_write :: "call list \<Rightarrow> bytes \<Rightarrow> string + string"
  store_get :: "call list \<Rightarrow> ContentID \<Rightarrow> string + bytes"
  store_list :: "call list \<Rightarrow> string \<Rightarrow> string + block_Info list"
  store_delete :: "call list \<Rightarrow> ContentID \<Rightarrow> string option"
  store_flush :: "call list \<Rightarrow> string option"
  json_Encode :: "manifest \<Rightarrow> string option"
  gz_Flush :: "manifest \<Rightarrow> string option"
  gz_Close :: "manifest \<Rightarrow> string option"
  buf_Bytes :: "manifest \<Rightarrow> bytes"
  json_Unmarshal :: "bytes \<Rightarrow> string + manifest"
  gzip_NewReader :: "bytes \<Rightarrow> string option"
  json_Decode :: "bytes \<Rightarrow> string + manifest"

text \<open>
  Modelled from the spec: \<^verbatim>\<open>WriteBlock\<close> is a content-addressed write into the
  namespace named by the prefix; the identifier it returns is the prefix followed by the
  hash of the bytes.
\<close>

definition WriteBlock ::
    "env \<Rightarrow> call list \<Rightarrow> bytes \<Rightarrow> string \<Rightarrow> (error + ContentID) \<times> call list" where
  "WriteBlock ev tr data prefix =
     (case store_write ev tr data of
        Inl msg \<Rightarrow> Inl (External msg)
      | Inr h \<Rightarrow> Inr (prefix @ h),
      tr @ [WriteBlock_call data prefix])"

definition GetBlock :: "env \<Rightarrow> call list \<Rightarrow> ContentID \<Rightarrow> (error + bytes) \<times> call list" where
  "GetBlock ev tr blockID =
     (case store_get ev tr blockID of
        Inl msg \<Rightarrow> Inl (External msg)
      | Inr blk \<Rightarrow> Inr blk,
      tr @ [GetBlock_call blockID])"

definition ListBlocks ::
    "env \<Rightarrow> call list \<Rightarrow> string \<Rightarrow> (error + block_Info list) \<times> call list" where
  "ListBlocks ev tr prefix =
     (case store_list ev tr prefix of
        Inl msg \<Rightarrow> Inl (External msg)
      | Inr blocks \<Rightarrow> Inr blocks,
      tr @ [ListBlocks_call prefix])"

definition DeleteBlock :: "env \<Rightarrow> call list \<Rightarrow> ContentID \<Rightarrow> error option \<times> call list" where
  "DeleteBlock ev tr blockID =
     (map_option External (store_delete ev tr blockID), tr @ [DeleteBlock_call blockID])"

definition block_Flush :: "env \<Rightarrow> call list \<Rightarrow> error option \<times> call list" where
  "block_Flush ev tr = (map_option External (store_flush ev tr), tr @ [Flush_call])"

subsection \<open>Labels and metadata\<close>

text \<open>\<^verbatim>\<open>copyLabels\<close>: a fresh map, filled pair by pair.\<close>

definition copyLabels :: "labels \<Rightarrow> labels" where
  "copyLabels m = fold (\<lambda>(k, v) r. AList.update k v r) m []"

text \<open>
  \<^verbatim>\<open>matchesLabels\<close>: the loop over the pairs of \<open>b\<close>, leaving with false at the first
  pair whose value differs from what indexing \<open>a\<close> gives.
\<close>

fun matchesLabels :: "labels \<Rightarrow> labels \<Rightarrow> bool" where
  "matchesLabels a [] = True"
| "matchesLabels a ((k, v) # b) = (if label a k \<noteq> v then False else matchesLabels a b)"

definition cloneEntryMetadata :: "manifestEntry \<Rightarrow> EntryMetadata" where
  "cloneEntryMetadata e =
     \<lparr>md_ID = ID e, md_ModTime = ModTime e, md_Length = length (Content e),
      md_Labels = copyLabels (Labels e)\<rparr>"

text \<open>\<^verbatim>\<open>hex.EncodeToString\<close>: two lowercase hexadecimal digits for every byte.\<close>

definition hexdigit :: "nat \<Rightarrow> char" where
  "hexdigit n = ''0123456789abcdef'' ! (n mod 16)"

definition hex_EncodeToString :: "bytes \<Rightarrow> string" where
  "hex_EncodeToString bs =
     concat (map (\<lambda>c. [hexdigit (of_char c div 16), hexdigit (of_char c mod 16)]) bs)"

subsection \<open>Operations on the index and the log\<close>

text \<open>
  \<^verbatim>\<open>Put\<close>. The outcome of \<^verbatim>\<open>rand.Read\<close> (the sixteen bytes, or a failure), the outcome
  of \<^verbatim>\<open>json.Marshal(payload)\<close> and the reading of the clock are arguments.
\<close>

definition Put ::
    "Manager \<Rightarrow> labels \<Rightarrow> string + bytes \<Rightarrow> string + bytes \<Rightarrow> Time
      \<Rightarrow> (error + string) \<times> Manager" where
  "Put m lbls rnd marshalled now =
     (if label lbls ''type'' = [] then (Inl TypeLabelRequired, m)
      else case rnd of
        Inl msg \<Rightarrow> (Inl (CantInitializeRandomness (External msg)), m)
      | Inr random \<Rightarrow>
          (case marshalled of
             Inl msg \<Rightarrow> (Inl (External msg), m)
           | Inr b \<Rightarrow>
               (let e = \<lparr>ID = hex_EncodeToString random, ModTime = now,
                         Labels = copyLabels lbls, Deleted = False, Content = b\<rparr>
                in (Inr (ID e),
                    m\<lparr>pendingEntries := pendingEntries m @ [e],
                      entries := (entries m)(ID e \<mapsto> e)\<rparr>))))"

definition GetMetadata :: "Manager \<Rightarrow> string \<Rightarrow> error + EntryMetadata" where
  "GetMetadata m i =
     (case entries m i of
        None \<Rightarrow> Inl ErrNotFound
      | Some e \<Rightarrow>
          Inr \<lparr>md_ID = i, md_ModTime = ModTime e, md_Length = length (Content e),
               md_Labels = copyLabels (Labels e)\<rparr>)"

definition GetRaw :: "Manager \<Rightarrow> string \<Rightarrow> error + bytes" where
  "GetRaw m i = (case entries m i of None \<Rightarrow> Inl ErrNotFound | Some e \<Rightarrow> Inr (Content e))"

text \<open>
  \<^verbatim>\<open>Get\<close>; \<open>unmarshal\<close> is the outcome of \<^verbatim>\<open>json.Unmarshal\<close> into the caller's object.
\<close>

definition Get :: "Manager \<Rightarrow> string \<Rightarrow> (bytes \<Rightarrow> string option) \<Rightarrow> error option" where
  "Get m i unmarshal =
     (case GetRaw m i of
        Inl err \<Rightarrow> Some err
      | Inr b \<Rightarrow>
          (case unmarshal b of
             Some msg \<Rightarrow> Some (UnableToUnmarshal i (External msg))
           | None \<Rightarrow> None))"

text \<open>
  \<^verbatim>\<open>Find\<close>. Go visits the index in an order of its own choosing; \<open>ks\<close> is that order,
  a list of keys, and the loop visits the entries found under them. For the loop of the
  source, \<open>ks\<close> holds every key of the index once (\<open>enumerates\<close>).
  \<^verbatim>\<open>sort.Slice\<close> with \<^verbatim>\<open>Before\<close> is a sort by \<open>md_ModTime\<close>; Go's is not stable, the one
  here is, and nothing below depends on how ties are ordered.
\<close>

definition enumerates :: "string list \<Rightarrow> (string \<rightharpoonup> manifestEntry) \<Rightarrow> bool" where
  "enumerates ks ix \<longleftrightarrow> distinct ks \<and> set ks = dom ix"

definition Find :: "Manager \<Rightarrow> string list \<Rightarrow> labels \<Rightarrow> EntryMetadata list" where
  "Find m ks lbls =
     sort_key md_ModTime
       (map cloneEntryMetadata
          (filter (\<lambda>e. matchesLabels (Labels e) lbls) (List.map_filter (entries m) ks)))"

definition Delete :: "Manager \<Rightarrow> string \<Rightarrow> Time \<Rightarrow> Manager" where
  "Delete m i now =
     (if entries m i = None then m
      else m\<lparr>entries := (entries m)(i := None),
             pendingEntries := pendingEntries m @
               [\<lparr>ID = i, ModTime = now, Labels = [], Deleted = True, Content = []\<rparr>]\<rparr>)"

text \<open>\<^verbatim>\<open>mergeEntry\<close>: the arriving entry replaces the incumbent only when strictly later.\<close>

definition mergeEntry :: "manifestEntry \<Rightarrow> Manager \<Rightarrow> Manager" where
  "mergeEntry e m =
     (case entries m (ID e) of
        None \<Rightarrow> m\<lparr>entries := (entries m)(ID e \<mapsto> e)\<rparr>
      | Some prev \<Rightarrow>
          if ModTime e > ModTime prev then m\<lparr>entries := (entries m)(ID e \<mapsto> e)\<rparr> else m)"

subsection \<open>Flush\<close>

definition flushPendingEntriesLocked ::
    "env \<Rightarrow> call list \<Rightarrow> Manager \<Rightarrow> (error + ContentID) \<times> Manager \<times> call list" where
  "flushPendingEntriesLocked ev tr m =
     (if pendingEntries m = [] then (Inr [], m, tr)
      else
        let man = \<lparr>Entries = pendingEntries m\<rparr> in
        case json_Encode ev man of
          Some msg \<Rightarrow> (Inl (UnableToMarshal (External msg)), m, tr)
        | None \<Rightarrow>
           (case gz_Flush ev man of
              Some msg \<Rightarrow> (Inl (UnableToFlush (External msg)), m, tr)
            | None \<Rightarrow>
               (case gz_Close ev man of
                  Some msg \<Rightarrow> (Inl (UnableToClose (External msg)), m, tr)
                | None \<Rightarrow>
                   (case WriteBlock ev tr (buf_Bytes ev man) manifestBlockPrefix of
                      (Inl err, tr') \<Rightarrow> (Inl err, m, tr')
                    | (Inr blockID, tr') \<Rightarrow> (Inr blockID, m\<lparr>pendingEntries := []\<rparr>, tr')))))"

definition Flush :: "env \<Rightarrow> call list \<Rightarrow> Manager \<Rightarrow> error option \<times> Manager \<times> call list" where
  "Flush ev tr m =
     (case flushPendingEntriesLocked ev tr m of
        (Inl err, m', tr') \<Rightarrow> (Some err, m', tr')
      | (Inr blockID, m', tr') \<Rightarrow>
          if blockID = [] then (None, m', tr')
          else (None, m'\<lparr>blockIDs := blockIDs m' @ [blockID]\<rparr>, tr'))"

subsection \<open>Reading blocks\<close>

definition loadManifestBlock ::
    "env \<Rightarrow> call list \<Rightarrow> ContentID \<Rightarrow> (error + manifest) \<times> call list" where
  "loadManifestBlock ev tr blockID =
     (case GetBlock ev tr blockID of
        (Inl err, tr') \<Rightarrow> (Inl (UnableToReadBlock blockID err), tr')
      | (Inr blk, tr') \<Rightarrow>
          if length blk > 2 \<and> blk ! 0 = CHR ''{'' then
            (case json_Unmarshal ev blk of
               Inl msg \<Rightarrow> (Inl (UnableToParseBlock blockID (External msg)), tr')
             | Inr man \<Rightarrow> (Inr man, tr'))
          else
            (case gzip_NewReader ev blk of
               Some msg \<Rightarrow> (Inl (UnableToUnpackBlock blockID (External msg)), tr')
             | None \<Rightarrow>
                (case json_Decode ev blk of
                   Inl msg \<Rightarrow> (Inl (UnableToParseBlock blockID (External msg)), tr')
                 | Inr man \<Rightarrow> (Inr man, tr'))))"

text \<open>
  \<^verbatim>\<open>loadBlocksInParallel\<close>. Eight workers take identifiers from a channel and send each
  outcome to the channel of errors or to the channel of manifests. What the caller sees
  is fixed by the order in which the workers finish, which is some rearrangement of the
  identifiers fed: \<open>sched\<close> is that rearrangement, and \<open>workers\<close> handles the
  identifiers in that order, filling the two channels. The caller then takes the first
  error if there is one, and otherwise drains the manifests. What is proved below for
  every function \<open>sched\<close> holds for every rearrangement.
\<close>

fun workers ::
    "env \<Rightarrow> call list \<Rightarrow> ContentID list \<Rightarrow> error list \<Rightarrow> manifest list
      \<Rightarrow> error list \<times> manifest list \<times> call list" where
  "workers ev tr [] errs mans = (errs, mans, tr)"
| "workers ev tr (blk # blks) errs mans =
     (case loadManifestBlock ev tr blk of
        (Inl err, tr') \<Rightarrow> workers ev tr' blks (errs @ [err]) mans
      | (Inr man, tr') \<Rightarrow> workers ev tr' blks errs (mans @ [man]))"

definition loadBlocksInParallel ::
    "env \<Rightarrow> call list \<Rightarrow> block_Info list \<Rightarrow> (ContentID list \<Rightarrow> ContentID list)
      \<Rightarrow> (error + manifest list) \<times> call list" where
  "loadBlocksInParallel ev tr blocks sched =
     (case workers ev tr (sched (map BlockID blocks)) [] [] of
        (errs, mans, tr') \<Rightarrow>
          (case errs of
             err # _ \<Rightarrow> (Inl err, tr')
           | [] \<Rightarrow> (Inr mans, tr')))"

text \<open>
  The second half of \<^verbatim>\<open>loadManifestBlocks\<close>: every entry of every manifest is merged, in
  the order given, and then the loop over the index deletes the keys whose entry is
  marked deleted. That loop visits every key once and deleting while ranging is allowed
  in Go, so its result is the index without those keys, whatever the order.
\<close>

definition mergeManifests :: "manifest list \<Rightarrow> Manager \<Rightarrow> Manager" where
  "mergeManifests manifests m = fold (\<lambda>man. fold mergeEntry (Entries man)) manifests m"

definition removeDeleted :: "Manager \<Rightarrow> Manager" where
  "removeDeleted m =
     m\<lparr>entries := (\<lambda>k. case entries m k of
                          None \<Rightarrow> None
                        | Some e \<Rightarrow> if Deleted e then None else Some e)\<rparr>"

definition loadManifestBlocks ::
    "env \<Rightarrow> call list \<Rightarrow> Manager \<Rightarrow> block_Info list \<Rightarrow> (ContentID list \<Rightarrow> ContentID list)
      \<Rightarrow> error option \<times> Manager \<times> call list" where
  "loadManifestBlocks ev tr m blocks sched =
     (let m1 = m\<lparr>blockIDs := blockIDs m @ map BlockID blocks\<rparr> in
      case loadBlocksInParallel ev tr blocks sched of
        (Inl err, tr') \<Rightarrow> (Some err, m1, tr')
      | (Inr manifests, tr') \<Rightarrow> (None, removeDeleted (mergeManifests manifests m1), tr'))"

subsection \<open>Compaction and load\<close>

text \<open>
  The loop of \<^verbatim>\<open>compactLocked\<close> that deletes the blocks of the list, skipping the
  identifier just returned by the flush and leaving at the first failure.
\<close>

fun deleteBlocks ::
    "env \<Rightarrow> call list \<Rightarrow> ContentID list \<Rightarrow> ContentID \<Rightarrow> error option \<times> call list" where
  "deleteBlocks ev tr [] blockID = (None, tr)"
| "deleteBlocks ev tr (b # bs) blockID =
     (if b = blockID then deleteBlocks ev tr bs blockID
      else case DeleteBlock ev tr b of
        (Some err, tr') \<Rightarrow> (Some (UnableToDeleteBlock b err), tr')
      | (None, tr') \<Rightarrow> deleteBlocks ev tr' bs blockID)"

text \<open>
  \<^verbatim>\<open>compactLocked\<close>; \<open>ks\<close> is the order in which the index is visited when its entries
  are appended to the log.
\<close>

definition compactLocked ::
    "env \<Rightarrow> call list \<Rightarrow> Manager \<Rightarrow> string list \<Rightarrow> error option \<times> Manager \<times> call list" where
  "compactLocked ev tr m ks =
     (if length (blockIDs m) = 1 \<and> pendingEntries m = [] then (None, m, tr)
      else
        let m1 = m\<lparr>pendingEntries := pendingEntries m @ List.map_filter (entries m) ks\<rparr> in
        case flushPendingEntriesLocked ev tr m1 of
          (Inl err, m2, tr2) \<Rightarrow> (Some err, m2, tr2)
        | (Inr blockID, m2, tr2) \<Rightarrow>
            (let m3 = m2\<lparr>blockIDs := blockIDs m2 @ [blockID]\<rparr> in
             case deleteBlocks ev tr2 (blockIDs m3) blockID of
               (Some err, tr3) \<Rightarrow> (Some err, m3, tr3)
             | (None, tr3) \<Rightarrow> (None, m3\<lparr>blockIDs := [blockID]\<rparr>, tr3)))"

definition Compact ::
    "env \<Rightarrow> call list \<Rightarrow> Manager \<Rightarrow> string list \<Rightarrow> error option \<times> Manager \<times> call list" where
  "Compact ev tr m ks = compactLocked ev tr m ks"

definition load ::
    "env \<Rightarrow> call list \<Rightarrow> Manager \<Rightarrow> (ContentID list \<Rightarrow> ContentID list) \<Rightarrow> string list
      \<Rightarrow> error option \<times> Manager \<times> call list" where
  "load ev tr m sched ks =
     (case Flush ev tr m of
        (Some err, m1, tr1) \<Rightarrow> (Some err, m1, tr1)
      | (None, m1, tr1) \<Rightarrow>
          (let m2 = m1\<lparr>entries := Map.empty\<rparr> in
           case ListBlocks ev tr1 manifestBlockPrefix of
             (Inl err, tr2) \<Rightarrow> (Some (UnableToListManifestBlocks err), m2, tr2)
           | (Inr blocks, tr2) \<Rightarrow>
               (case loadManifestBlocks ev tr2 m2 blocks sched of
                  (Some err, m3, tr3) \<Rightarrow> (Some (UnableToLoadManifestBlocks err), m3, tr3)
                | (None, m3, tr3) \<Rightarrow>
                    if length blocks > autoCompactionBlockCount then
                      (case compactLocked ev tr3 m3 ks of
                         (Some err, m4, tr4) \<Rightarrow>
                           (Some (UnableToCompactManifestBlocks err), m4, tr4)
                       | (None, m4, tr4) \<Rightarrow>
                           (case block_Flush ev tr4 of
                              (Some err, tr5) \<Rightarrow>
                                (Some (UnableToFlushBlocksAfterAutoCompaction err), m4, tr5)
                            | (None, tr5) \<Rightarrow> (None, m4, tr5)))
                    else (None, m3, tr3))))"

definition NewManager ::
    "env \<Rightarrow> call list \<Rightarrow> (ContentID list \<Rightarrow> ContentID list) \<Rightarrow> string list
      \<Rightarrow> (error + Manager) \<times> call list" where
  "NewManager ev tr sched ks =
     (let m = \<lparr>entries = Map.empty, blockIDs = [], pendingEntries = []\<rparr> in
      case load ev tr m sched ks of
        (Some err, m', tr') \<Rightarrow> (Inl err, tr')
      | (None, m', tr') \<Rightarrow> (Inr m', tr'))"

subsection \<open>The manager as a state machine\<close>

text \<open>
  The block identifier that an error message quotes, for the errors that quote one.
\<close>

fun error_blockID :: "error \<Rightarrow> ContentID option" where
  "error_blockID (UnableToReadBlock b _) = Some b"
| "error_blockID (UnableToParseBlock b _) = Some b"
| "error_blockID (UnableToUnpackBlock b _) = Some b"
| "error_blockID (UnableToDeleteBlock b _) = Some b"
| "error_blockID _ = None"

text \<open>
  The public operations of a manager that \<^verbatim>\<open>NewManager\<close> has returned, each with the
  inputs it takes from outside (clock, random source, encoder outcome, visiting order),
  and the state they leave behind, whether they succeed or fail. The reading operations
  leave the state as it is.
\<close>

datatype op =
    Put_op labels "string + bytes" "string + bytes" Time
  | Get_op string
  | GetMetadata_op string
  | GetRaw_op string
  | Find_op "string list" labels
  | Delete_op string Time
  | Flush_op
  | Compact_op "string list"

fun step :: "env \<Rightarrow> op \<Rightarrow> Manager \<times> call list \<Rightarrow> Manager \<times> call list" where
  "step ev (Put_op lbls rnd marshalled now) (m, tr) = (snd (Put m lbls rnd marshalled now), tr)"
| "step ev (Get_op i) (m, tr) = (m, tr)"
| "step ev (GetMetadata_op i) (m, tr) = (m, tr)"
| "step ev (GetRaw_op i) (m, tr) = (m, tr)"
| "step ev (Find_op ks lbls) (m, tr) = (m, tr)"
| "step ev (Delete_op i now) (m, tr) = (Delete m i now, tr)"
| "step ev Flush_op (m, tr) = snd (Flush ev tr m)"
| "step ev (Compact_op ks) (m, tr) = snd (Compact ev tr m ks)"

definition run :: "env \<Rightarrow> op list \<Rightarrow> Manager \<times> call list \<Rightarrow> Manager \<times> call list" where
  "run ev ops s = fold (step ev) ops s"

subsection \<open>Sample data\<close>

text \<open>
  Concrete entries and manager states on which the statements below are run: a live
  entry, a tombstone for the same identifier carrying the same instant, a tombstone
  carrying a later instant, the manager as \<^verbatim>\<open>NewManager\<close> builds it before loading, and
  a manager that holds the live entry.
\<close>

definition sample_id :: string where
  "sample_id = ''000102030405060708090a0b0c0d0e0f''"

definition sample_live :: manifestEntry where
  "sample_live =
     \<lparr>ID = sample_id, ModTime = 1, Labels = [(''type'', ''snap'')], Deleted = False,
      Content = ''{}''\<rparr>"

definition sample_tombstone :: manifestEntry where
  "sample_tombstone =
     \<lparr>ID = sample_id, ModTime = 1, Labels = [], Deleted = True, Content = []\<rparr>"

definition sample_late_tombstone :: manifestEntry where
  "sample_late_tombstone =
     \<lparr>ID = sample_id, ModTime = 2, Labels = [], Deleted = True, Content = []\<rparr>"

definition fresh_Manager :: Manager where
  "fresh_Manager = \<lparr>entries = Map.empty, blockIDs = [], pendingEntries = []\<rparr>"

definition sample_Manager :: Manager where
  "sample_Manager =
     \<lparr>entries = [sample_id \<mapsto> sample_live], blockIDs = [''m01''], pendingEntries = []\<rparr>"


text \<open>
  A manager with two known blocks and the live entry, and a manager whose log holds a
  tombstone that has not been flushed.
\<close>

definition two_block_Manager :: Manager where
  "two_block_Manager =
     \<lparr>entries = [sample_id \<mapsto> sample_live], blockIDs = [''m00'', ''m01''],
      pendingEntries = []\<rparr>"

definition pending_Manager :: Manager where
  "pending_Manager =
     \<lparr>entries = Map.empty, blockIDs = [''m01''], pendingEntries = [sample_late_tombstone]\<rparr>"

text \<open>Sixteen bytes, as \<^verbatim>\<open>rand.Read\<close> fills them in.\<close>

definition sample_random :: bytes where
  "sample_random =
     [CHR 0x10, CHR 0x11, CHR 0x12, CHR 0x13, CHR 0x14, CHR 0x15, CHR 0x16, CHR 0x17,
      CHR 0x18, CHR 0x19, CHR 0x1A, CHR 0x1B, CHR 0x1C, CHR 0x1D, CHR 0x1E, CHR 0x1F]"

text \<open>
  A block store that lists one block, \<^verbatim>\<open>m01\<close>, an uncompressed document holding the
  live entry; every write returns the hash \<^verbatim>\<open>00\<close>, deletions and flushes succeed. The
  parser accepts that document and the empty object; the gzip reader refuses what is
  shorter than a gzip header or does not start with the gzip magic bytes. The three
  variants fail every fetch, every listing, or every write, as a cancelled context does.
\<close>

definition sample_block :: bytes where
  \<open>sample_block = ''{"entries":[{"id":"000102030405060708090a0b0c0d0e0f"}]}''\<close>

definition sample_env :: env where
  "sample_env =
     \<lparr>store_write = (\<lambda>tr d. Inr ''00''),
      store_get = (\<lambda>tr b. if b = ''m01'' then Inr sample_block else Inl ''block not found''),
      store_list =
        (\<lambda>tr p. Inr [\<lparr>BlockID = ''m01'', Timestamp = 0, Length = length sample_block\<rparr>]),
      store_delete = (\<lambda>tr b. None),
      store_flush = (\<lambda>tr. None),
      json_Encode = (\<lambda>man. None),
      gz_Flush = (\<lambda>man. None),
      gz_Close = (\<lambda>man. None),
      buf_Bytes = (\<lambda>man. [CHR 0x1F, CHR 0x8B, CHR 0x08]),
      json_Unmarshal =
        (\<lambda>blk. if blk = sample_block then Inr \<lparr>Entries = [sample_live]\<rparr>
               else if blk = ''{}'' then Inr \<lparr>Entries = []\<rparr>
               else Inl ''invalid character''),
      gzip_NewReader =
        (\<lambda>blk. if length blk < 10 then Some ''unexpected EOF''
               else if take 2 blk = [CHR 0x1F, CHR 0x8B] then None
               else Some ''gzip: invalid header''),
      json_Decode = (\<lambda>blk. Inl ''EOF'')\<rparr>"

definition cancelled_get_env :: env where
  "cancelled_get_env = sample_env\<lparr>store_get := \<lambda>tr b. Inl ''context canceled''\<rparr>"

definition cancelled_list_env :: env where
  "cancelled_list_env = sample_env\<lparr>store_list := \<lambda>tr p. Inl ''context canceled''\<rparr>"

definition cancelled_write_env :: env where
  "cancelled_write_env = sample_env\<lparr>store_write := \<lambda>tr d. Inl ''context canceled''\<rparr>"

definition short_block_env :: env where
  "short_block_env = sample_env\<lparr>store_get := \<lambda>tr b. Inr ''{}''\<rparr>"

section \<open>Running the model on concrete data\<close>

text \<open>The definitions that a run on concrete data unfolds.\<close>

lemmas run_defs = load_def Flush_def flushPendingEntriesLocked_def ListBlocks_def
  loadManifestBlocks_def loadBlocksInParallel_def loadManifestBlock_def GetBlock_def
  WriteBlock_def DeleteBlock_def compactLocked_def Compact_def NewManager_def
  manifestBlockPrefix_def autoCompactionBlockCount_def mergeManifests_def mergeEntry_def
  removeDeleted_def Let_def List.map_filter_def

section \<open>The merge rule\<close>

lemma mergeEntry_commute:
  assumes "ID a = ID b \<and> ModTime a = ModTime b \<longrightarrow> a = b"
  shows "mergeEntry a (mergeEntry b m) = mergeEntry b (mergeEntry a m)"
proof (cases "ID a = ID b")
  case True
  with assms show ?thesis
    by (cases "entries m (ID b)") (auto simp: mergeEntry_def)
next
  case False
  then show ?thesis
    by (auto simp: mergeEntry_def fun_upd_twist split: option.splits)
qed

lemma mergeManifests_concat:
  "mergeManifests manifests m = fold mergeEntry (concat (map Entries manifests)) m"
  unfolding mergeManifests_def
  by (induction manifests arbitrary: m) simp_all

lemma fold_mergeEntry_perm:
  assumes "mset es1 = mset es2"
    and "\<forall>a \<in> set es1. \<forall>b \<in> set es1. ID a = ID b \<and> ModTime a = ModTime b \<longrightarrow> a = b"
  shows "fold mergeEntry es1 = fold mergeEntry es2"
proof (rule fold_multiset_equiv)
  fix x y assume "x \<in> set es1" "y \<in> set es1"
  with assms(2) have "ID x = ID y \<and> ModTime x = ModTime y \<longrightarrow> x = y" by blast
  then show "mergeEntry x \<circ> mergeEntry y = mergeEntry y \<circ> mergeEntry x"
    by (auto simp: fun_eq_iff intro: mergeEntry_commute)
qed (fact assms(1))

text \<open>
  C1, as the code has it. Two lists of manifests that hold the same entries, each as
  often in the one as in the other, are merged into a manager. If any two of these
  entries that agree on identifier and instant are the same entry, then the manager
  after merging and removing the tombstones is the same for both lists, whatever the
  order of the blocks and of the entries within them, and whatever index the merge
  started from.
\<close>

theorem merge_order_independent_without_ties:
  assumes "mset (concat (map Entries mans1)) = mset (concat (map Entries mans2))"
    and "\<forall>a \<in> set (concat (map Entries mans1)). \<forall>b \<in> set (concat (map Entries mans1)).
           ID a = ID b \<and> ModTime a = ModTime b \<longrightarrow> a = b"
  shows "removeDeleted (mergeManifests mans1 m) = removeDeleted (mergeManifests mans2 m)"
  using fold_mergeEntry_perm [OF assms] by (simp add: mergeManifests_concat)

theorem merge_order_independent_without_ties_witness:
  "mset (concat (map Entries [\<lparr>Entries = [sample_live]\<rparr>, \<lparr>Entries = [sample_late_tombstone]\<rparr>]))
     = mset (concat (map Entries [\<lparr>Entries = [sample_late_tombstone, sample_live]\<rparr>]))
   \<and> removeDeleted
        (mergeManifests [\<lparr>Entries = [sample_live]\<rparr>, \<lparr>Entries = [sample_late_tombstone]\<rparr>]
           fresh_Manager)
     = removeDeleted
        (mergeManifests [\<lparr>Entries = [sample_late_tombstone, sample_live]\<rparr>] fresh_Manager)
   \<and> entries (removeDeleted
        (mergeManifests [\<lparr>Entries = [sample_late_tombstone, sample_live]\<rparr>] fresh_Manager))
        sample_id = None"
proof -
  let ?A = "[\<lparr>Entries = [sample_live]\<rparr>, \<lparr>Entries = [sample_late_tombstone]\<rparr>]"
  let ?B = "[\<lparr>Entries = [sample_late_tombstone, sample_live]\<rparr>]"
  have h1: "mset (concat (map Entries ?A)) = mset (concat (map Entries ?B))"
    by simp
  have h2: "\<forall>a \<in> set (concat (map Entries ?A)). \<forall>b \<in> set (concat (map Entries ?A)).
              ID a = ID b \<and> ModTime a = ModTime b \<longrightarrow> a = b"
    by (simp add: sample_live_def sample_late_tombstone_def)
  have h3: "entries (removeDeleted (mergeManifests ?B fresh_Manager)) sample_id = None"
    by (simp add: removeDeleted_def mergeManifests_def mergeEntry_def fresh_Manager_def
        sample_live_def sample_late_tombstone_def)
  from merge_order_independent_without_ties [OF h1 h2, of fresh_Manager] h1 h3
  show ?thesis by simp
qed

text \<open>
  C1, as it is written, fails: a live entry and a tombstone with the same identifier and
  the same instant. Merged live entry first, the live entry stays and is in the index;
  merged tombstone first, the tombstone stays and the identifier is removed.
\<close>

theorem merge_order_counterexample:
  "mset (concat (map Entries [\<lparr>Entries = [sample_live]\<rparr>, \<lparr>Entries = [sample_tombstone]\<rparr>]))
     = mset (concat (map Entries [\<lparr>Entries = [sample_tombstone]\<rparr>, \<lparr>Entries = [sample_live]\<rparr>]))
   \<and> entries (removeDeleted
        (mergeManifests [\<lparr>Entries = [sample_live]\<rparr>, \<lparr>Entries = [sample_tombstone]\<rparr>]
           fresh_Manager)) sample_id = Some sample_live
   \<and> entries (removeDeleted
        (mergeManifests [\<lparr>Entries = [sample_tombstone]\<rparr>, \<lparr>Entries = [sample_live]\<rparr>]
           fresh_Manager)) sample_id = None"
  by (simp add: removeDeleted_def mergeManifests_def mergeEntry_def fresh_Manager_def
      sample_live_def sample_tombstone_def)

text \<open>
  C4. An index holds \<open>a\<close> under its identifier and \<open>b\<close> arrives with the same identifier.
  If \<open>b\<close> is strictly later than \<open>a\<close>, the index holds \<open>b\<close> under that identifier
  afterwards and nothing else has changed; otherwise the manager is unchanged. The
  tombstone flags of \<open>a\<close> and \<open>b\<close> play no part.
\<close>

theorem mergeEntry_incumbent:
  assumes "entries m (ID a) = Some a" and "ID a = ID b"
  shows "mergeEntry b m =
           (if ModTime b > ModTime a then m\<lparr>entries := (entries m)(ID b \<mapsto> b)\<rparr> else m)"
  using assms by (simp add: mergeEntry_def)

theorem mergeEntry_incumbent_witness:
  "entries sample_Manager (ID sample_live) = Some sample_live
   \<and> ID sample_live = ID sample_tombstone
   \<and> ID sample_live = ID sample_late_tombstone
   \<and> mergeEntry sample_tombstone sample_Manager = sample_Manager
   \<and> mergeEntry sample_late_tombstone sample_Manager =
       sample_Manager\<lparr>entries := (entries sample_Manager)(sample_id \<mapsto> sample_late_tombstone)\<rparr>"
proof -
  have h1: "entries sample_Manager (ID sample_live) = Some sample_live"
    by (simp add: sample_Manager_def sample_live_def)
  have h2: "ID sample_live = ID sample_tombstone"
    by (simp add: sample_live_def sample_tombstone_def)
  have h3: "ID sample_live = ID sample_late_tombstone"
    by (simp add: sample_live_def sample_late_tombstone_def)
  have t2: "ModTime sample_live = 1" "ModTime sample_tombstone = 1"
    "ModTime sample_late_tombstone = 2" "ID sample_late_tombstone = sample_id"
    by (simp_all add: sample_live_def sample_tombstone_def sample_late_tombstone_def)
  from mergeEntry_incumbent [OF h1 h2] mergeEntry_incumbent [OF h1 h3] h1 h2 h3
  show ?thesis by (simp add: t2)
qed

section \<open>Find\<close>

lemma matchesLabels_iff:
  "matchesLabels a b \<longleftrightarrow> (\<forall>(k, v) \<in> set b. label a k = v)"
  by (induction b) (auto split: if_splits)

lemma set_map_filter_enumerates:
  assumes "enumerates ks ix"
  shows "set (List.map_filter ix ks) = ran ix"
  using assms
  by (auto simp: enumerates_def List.map_filter_def ran_def dom_def) force+

lemma label_nonempty:
  "v \<noteq> [] \<Longrightarrow> label a k = v \<longleftrightarrow> map_of a k = Some v"
  by (auto simp: label_def split: option.splits)

lemma filter_map_filter_keys:
  "set ks \<subseteq> dom ix \<Longrightarrow>
     filter P (List.map_filter ix ks) = map (\<lambda>k. the (ix k)) (filter (\<lambda>k. P (the (ix k))) ks)"
  by (induction ks) (auto simp: List.map_filter_def)

lemma length_filter_map_filter:
  assumes "enumerates ks ix"
  shows "length (filter P (List.map_filter ix ks)) = card {k \<in> dom ix. P (the (ix k))}"
proof -
  from assms have d: "distinct ks" and s: "set ks = dom ix" by (simp_all add: enumerates_def)
  have "length (filter P (List.map_filter ix ks)) = length (filter (\<lambda>k. P (the (ix k))) ks)"
    using s by (simp add: filter_map_filter_keys)
  also have "\<dots> = card (set (filter (\<lambda>k. P (the (ix k))) ks))"
    using d by (metis distinct_card distinct_filter)
  also have "set (filter (\<lambda>k. P (the (ix k))) ks) = {k \<in> dom ix. P (the (ix k))}"
    using s by auto
  finally show ?thesis .
qed

lemma Find_set:
  assumes "enumerates ks (entries m)"
  shows "set (Find m ks q) =
           cloneEntryMetadata ` {e \<in> ran (entries m). \<forall>(k, v) \<in> set q. label (Labels e) k = v}"
  using assms by (auto simp: Find_def set_map_filter_enumerates matchesLabels_iff)

lemma Find_length:
  assumes "enumerates ks (entries m)"
  shows "length (Find m ks q) =
           card {i \<in> dom (entries m).
                   \<forall>(k, v) \<in> set q. label (Labels (the (entries m i))) k = v}"
  using length_filter_map_filter [OF assms, of "\<lambda>e. matchesLabels (Labels e) q"]
  by (simp add: Find_def matchesLabels_iff)

lemma Find_set_nonempty_values:
  assumes "enumerates ks (entries m)" and ne: "\<forall>(k, v) \<in> set q. v \<noteq> []"
  shows "set (Find m ks q) =
           cloneEntryMetadata `
             {e \<in> ran (entries m). \<forall>(k, v) \<in> set q. map_of (Labels e) k = Some v}"
proof -
  have eq: "(\<forall>(k, v) \<in> set q. label (Labels e) k = v) \<longleftrightarrow>
            (\<forall>(k, v) \<in> set q. map_of (Labels e) k = Some v)" for e
  proof (rule ball_cong [OF refl])
    fix x assume "x \<in> set q"
    with ne obtain k v where "x = (k, v)" and "v \<noteq> []" by (cases x) auto
    then show "(case x of (k, v) \<Rightarrow> label (Labels e) k = v) =
               (case x of (k, v) \<Rightarrow> map_of (Labels e) k = Some v)"
      by (simp add: label_nonempty)
  qed
  show ?thesis
    unfolding Find_set [OF assms(1)] by (simp only: eq)
qed

lemma Find_sorted: "sorted (map md_ModTime (Find m ks q))"
  by (simp add: Find_def)

text \<open>
  C2. The claim is that \<open>Find\<close> returns exactly the entries in whose labels every pair
  of the query is present and equal, which is also what the comment on
  \<^verbatim>\<open>matchesLabels\<close> says (true when all entries of the query are found in the labels).
  The code departs from it where the query has a pair whose value is the empty string:
  \<^verbatim>\<open>a[k] != v\<close> reads a missing key as the empty string and never looks at whether the
  key was found. Here the index holds one entry, whose labels are \<^verbatim>\<open>type\<close> = \<^verbatim>\<open>snap\<close>
  and have no key \<^verbatim>\<open>host\<close>; the query asks for \<^verbatim>\<open>host\<close> with the empty string. The
  pair is not in the entry's labels, so the claim wants the empty result, and the code
  returns the entry. For queries with no empty value (\<open>Find_set_nonempty_values\<close>) and
  for the order of the result (\<open>Find_sorted\<close>) the code does what the claim says.
\<close>

theorem Find_empty_value_failing_input:
  "enumerates [sample_id] (entries sample_Manager)
   \<and> entries sample_Manager sample_id = Some sample_live
   \<and> map_of (Labels sample_live) ''host'' = None
   \<and> matchesLabels (Labels sample_live) [(''host'', [])] = True
   \<and> Find sample_Manager [sample_id] [(''host'', [])] = [cloneEntryMetadata sample_live]"
  by (simp add: enumerates_def Find_def sample_Manager_def sample_live_def label_def
      List.map_filter_def)

section \<open>Flush\<close>

lemma flush_cases:
  assumes "flushPendingEntriesLocked ev tr m = (r, m', tr')"
  shows "entries m' = entries m \<and> blockIDs m' = blockIDs m
       \<and> (case r of
            Inl err \<Rightarrow> m' = m \<and> pendingEntries m \<noteq> []
          | Inr b \<Rightarrow> pendingEntries m' = []
              \<and> (if pendingEntries m = [] then b = [] \<and> tr' = tr
                  else (\<exists>h. store_write ev tr (buf_Bytes ev \<lparr>Entries = pendingEntries m\<rparr>)
                               = Inr h \<and> b = manifestBlockPrefix @ h) \<and>
                    tr' = tr @ [WriteBlock_call (buf_Bytes ev \<lparr>Entries = pendingEntries m\<rparr>)
                                  manifestBlockPrefix]))"
  using assms
  by (auto simp: flushPendingEntriesLocked_def WriteBlock_def Let_def
      split: if_splits option.splits sum.splits prod.splits)

lemma flush_trace:
  assumes "flushPendingEntriesLocked ev tr m = (r, m', tr')"
  shows "\<exists>cs. tr' = tr @ cs \<and> (\<forall>b. DeleteBlock_call b \<notin> set cs)"
  using assms
  by (auto simp: flushPendingEntriesLocked_def WriteBlock_def Let_def
      split: if_splits option.splits sum.splits prod.splits)

lemma Flush_failure:
  assumes "Flush ev tr m = (Some err, m', tr')"
  shows "m' = m \<and>
         ((\<exists>msg. err = External msg) \<or> (\<exists>e. err = UnableToMarshal e)
          \<or> (\<exists>e. err = UnableToFlush e) \<or> (\<exists>e. err = UnableToClose e))"
  using assms
  by (auto simp: Flush_def flushPendingEntriesLocked_def WriteBlock_def Let_def
      split: if_splits option.splits sum.splits prod.splits)

lemma Flush_entries:
  assumes "Flush ev tr m = (r, m', tr')"
  shows "entries m' = entries m"
proof (cases "flushPendingEntriesLocked ev tr m")
  case (fields r0 m0 tr0)
  from flush_cases [OF fields] fields assms show ?thesis
    by (cases r0) (auto simp: Flush_def split: if_splits)
qed

text \<open>
  C5. Whatever the manager and the collaborators: when \<open>Flush\<close> succeeds, the log is
  empty afterwards and the index is untouched; if the log was empty the list of known
  blocks is unchanged, and otherwise it has grown by exactly one identifier at its end,
  the prefix followed by the hash that the write returned. When \<open>Flush\<close> fails, the
  manager is the one it was on entry, log and known blocks included.
\<close>

theorem Flush_outcome:
  assumes "Flush ev tr m = (r, m', tr')"
  shows "(r = None \<longrightarrow>
            pendingEntries m' = [] \<and> entries m' = entries m \<and>
            (if pendingEntries m = [] then blockIDs m' = blockIDs m
             else \<exists>h. store_write ev tr (buf_Bytes ev \<lparr>Entries = pendingEntries m\<rparr>) = Inr h
                      \<and> blockIDs m' = blockIDs m @ [manifestBlockPrefix @ h]))
       \<and> (r \<noteq> None \<longrightarrow> m' = m)"
proof (cases "flushPendingEntriesLocked ev tr m")
  case (fields r0 m0 tr0)
  from flush_cases [OF fields] fields assms show ?thesis
    by (cases r0) (auto simp: Flush_def manifestBlockPrefix_def split: if_splits)
qed

theorem Flush_outcome_witness:
  "Flush sample_env [] pending_Manager =
     (None, pending_Manager\<lparr>pendingEntries := [], blockIDs := [''m01'', ''m00'']\<rparr>,
      [WriteBlock_call [CHR 0x1F, CHR 0x8B, CHR 0x08] ''m''])
   \<and> Flush cancelled_write_env [] pending_Manager =
     (Some (External ''context canceled''), pending_Manager,
      [WriteBlock_call [CHR 0x1F, CHR 0x8B, CHR 0x08] ''m''])
   \<and> Flush sample_env [] fresh_Manager = (None, fresh_Manager, [])
   \<and> pendingEntries (pending_Manager\<lparr>pendingEntries := [], blockIDs := [''m01'', ''m00'']\<rparr>) = []
   \<and> (\<exists>h. blockIDs (pending_Manager\<lparr>pendingEntries := [], blockIDs := [''m01'', ''m00'']\<rparr>)
            = blockIDs pending_Manager @ [manifestBlockPrefix @ h])"
proof -
  have ok: "Flush sample_env [] pending_Manager =
     (None, pending_Manager\<lparr>pendingEntries := [], blockIDs := [''m01'', ''m00'']\<rparr>,
      [WriteBlock_call [CHR 0x1F, CHR 0x8B, CHR 0x08] ''m''])"
    by (simp add: run_defs sample_env_def pending_Manager_def)
  have bad: "Flush cancelled_write_env [] pending_Manager =
     (Some (External ''context canceled''), pending_Manager,
      [WriteBlock_call [CHR 0x1F, CHR 0x8B, CHR 0x08] ''m''])"
    by (simp add: run_defs cancelled_write_env_def sample_env_def pending_Manager_def)
  have none: "Flush sample_env [] fresh_Manager = (None, fresh_Manager, [])"
    by (simp add: run_defs sample_env_def fresh_Manager_def)
  have ne: "pendingEntries pending_Manager \<noteq> []"
    by (simp add: pending_Manager_def)
  from Flush_outcome [OF ok] ne
  have "pendingEntries (pending_Manager\<lparr>pendingEntries := [], blockIDs := [''m01'', ''m00'']\<rparr>) = []
   \<and> (\<exists>h. blockIDs (pending_Manager\<lparr>pendingEntries := [], blockIDs := [''m01'', ''m00'']\<rparr>)
            = blockIDs pending_Manager @ [manifestBlockPrefix @ h])"
    by auto
  with ok bad none show ?thesis by blast
qed

section \<open>Compaction\<close>

lemma deleteBlocks_trace:
  assumes "deleteBlocks ev tr bs B = (r, tr')"
  shows "\<exists>cs. tr' = tr @ cs
           \<and> (\<forall>c \<in> set cs. \<exists>b. c = DeleteBlock_call b \<and> b \<in> set bs \<and> b \<noteq> B)
           \<and> (r = None \<longrightarrow> cs = map DeleteBlock_call (filter (\<lambda>b. b \<noteq> B) bs))"
  using assms
proof (induction bs arbitrary: tr)
  case Nil
  then show ?case by simp
next
  case (Cons b bs)
  show ?case
  proof (cases "b = B")
    case True
    with Cons.prems have "deleteBlocks ev tr bs B = (r, tr')" by simp
    from Cons.IH [OF this] True show ?thesis by fastforce
  next
    case False
    show ?thesis
    proof (cases "store_delete ev tr b")
      case None
      with False Cons.prems
      have "deleteBlocks ev (tr @ [DeleteBlock_call b]) bs B = (r, tr')"
        by (simp add: DeleteBlock_def)
      from Cons.IH [OF this] obtain cs where
        cs: "tr' = (tr @ [DeleteBlock_call b]) @ cs"
          "\<forall>c \<in> set cs. \<exists>b. c = DeleteBlock_call b \<and> b \<in> set bs \<and> b \<noteq> B"
          "r = None \<longrightarrow> cs = map DeleteBlock_call (filter (\<lambda>b. b \<noteq> B) bs)"
        by blast
      show ?thesis
      proof (intro exI conjI)
        show "tr' = tr @ (DeleteBlock_call b # cs)" using cs(1) by simp
        show "\<forall>c \<in> set (DeleteBlock_call b # cs).
                \<exists>b'. c = DeleteBlock_call b' \<and> b' \<in> set (b # bs) \<and> b' \<noteq> B"
          using cs(2) False by fastforce
        show "r = None \<longrightarrow>
                DeleteBlock_call b # cs = map DeleteBlock_call (filter (\<lambda>b. b \<noteq> B) (b # bs))"
          using cs(3) False by simp
      qed
    next
      case (Some msg)
      with False Cons.prems show ?thesis
        by (auto simp: DeleteBlock_def)
    qed
  qed
qed

lemma compactLocked_entries:
  assumes "compactLocked ev tr m ks = (r, m', tr')"
  shows "entries m' = entries m"
proof (cases "length (blockIDs m) = 1 \<and> pendingEntries m = []")
  case True
  with assms show ?thesis by (auto simp: compactLocked_def)
next
  case False
  let ?m1 = "m\<lparr>pendingEntries := pendingEntries m @ List.map_filter (entries m) ks\<rparr>"
  obtain r0 m2 tr2 where f: "flushPendingEntriesLocked ev tr ?m1 = (r0, m2, tr2)"
    by (cases "flushPendingEntriesLocked ev tr ?m1") auto
  from flush_cases [OF f] have "entries m2 = entries m" by simp
  with assms False f show ?thesis
    by (auto simp: compactLocked_def Let_def split: sum.splits option.splits prod.splits)
qed

lemma map_filter_empty: "List.map_filter (\<lambda>_. None) ks = []"
  by (simp add: List.map_filter_def)

text \<open>
  C6. Whenever \<open>Compact\<close> succeeds, the list of known blocks has exactly one element
  afterwards and the index is the one from before the call.
\<close>

theorem compact_success:
  assumes "Compact ev tr m ks = (None, m', tr')"
  shows "length (blockIDs m') = 1 \<and> entries m' = entries m"
proof (cases "length (blockIDs m) = 1 \<and> pendingEntries m = []")
  case True
  with assms show ?thesis by (auto simp: Compact_def compactLocked_def)
next
  case False
  from assms have c: "compactLocked ev tr m ks = (None, m', tr')"
    by (simp add: Compact_def)
  from c False have "length (blockIDs m') = 1"
    by (auto simp: compactLocked_def Let_def split: sum.splits option.splits prod.splits)
  with compactLocked_entries [OF c] show ?thesis by simp
qed

theorem compact_success_witness:
  "Compact sample_env [] two_block_Manager [sample_id] =
     (None, two_block_Manager\<lparr>blockIDs := [''m00'']\<rparr>,
      [WriteBlock_call [CHR 0x1F, CHR 0x8B, CHR 0x08] ''m'', DeleteBlock_call ''m01''])
   \<and> length (blockIDs (two_block_Manager\<lparr>blockIDs := [''m00'']\<rparr>)) = 1
   \<and> entries (two_block_Manager\<lparr>blockIDs := [''m00'']\<rparr>) = entries two_block_Manager"
proof -
  have h: "Compact sample_env [] two_block_Manager [sample_id] =
     (None, two_block_Manager\<lparr>blockIDs := [''m00'']\<rparr>,
      [WriteBlock_call [CHR 0x1F, CHR 0x8B, CHR 0x08] ''m'', DeleteBlock_call ''m01''])"
    by (simp add: run_defs sample_env_def two_block_Manager_def)
  from compact_success [OF h] h show ?thesis by blast
qed

text \<open>
  C8. Whatever \<open>compactLocked\<close> returns, the calls it has added to the trace contain a
  deletion of \<open>b\<close> only if \<open>b\<close> is one of the blocks known before the compaction and
  the flush of the compaction has returned an identifier \<open>B\<close> different from \<open>b\<close>. So
  the block just written is never deleted, also when its identifier is one of the old
  ones.
\<close>

theorem compact_never_deletes_new_block:
  assumes "compactLocked ev tr m ks = (r, m', tr')"
  shows "\<exists>cs. tr' = tr @ cs \<and>
           (\<forall>b. DeleteBlock_call b \<in> set cs \<longrightarrow>
              b \<in> set (blockIDs m) \<and>
              (\<exists>B. fst (flushPendingEntriesLocked ev tr
                          (m\<lparr>pendingEntries :=
                               pendingEntries m @ List.map_filter (entries m) ks\<rparr>)) = Inr B
                    \<and> b \<noteq> B))"
proof (cases "length (blockIDs m) = 1 \<and> pendingEntries m = []")
  case True
  with assms have "tr' = tr" by (auto simp: compactLocked_def)
  then show ?thesis by simp
next
  case False
  let ?m1 = "m\<lparr>pendingEntries := pendingEntries m @ List.map_filter (entries m) ks\<rparr>"
  obtain r0 m2 tr2 where f: "flushPendingEntriesLocked ev tr ?m1 = (r0, m2, tr2)"
    by (cases "flushPendingEntriesLocked ev tr ?m1") auto
  from flush_trace [OF f] obtain cs1 where
    cs1: "tr2 = tr @ cs1" "\<forall>b. DeleteBlock_call b \<notin> set cs1" by blast
  from flush_cases [OF f] have ids: "blockIDs m2 = blockIDs m" by simp
  show ?thesis
  proof (cases r0)
    case (Inl err)
    with assms False f have "tr' = tr2" by (auto simp: compactLocked_def Let_def)
    with cs1 show ?thesis by auto
  next
    case (Inr B)
    obtain r3 tr3 where d: "deleteBlocks ev tr2 (blockIDs m @ [B]) B = (r3, tr3)"
      by (cases "deleteBlocks ev tr2 (blockIDs m @ [B]) B") auto
    from assms False f Inr d ids have "tr' = tr3"
      by (auto simp: compactLocked_def Let_def split: option.splits)
    moreover from deleteBlocks_trace [OF d] obtain cs2 where
      cs2: "tr3 = tr2 @ cs2"
        "\<forall>c \<in> set cs2. \<exists>b. c = DeleteBlock_call b \<and> b \<in> set (blockIDs m @ [B]) \<and> b \<noteq> B"
      by blast
    ultimately have "tr' = tr @ (cs1 @ cs2)" using cs1 by simp
    moreover have "\<forall>b. DeleteBlock_call b \<in> set (cs1 @ cs2) \<longrightarrow>
              b \<in> set (blockIDs m) \<and>
              (\<exists>B. fst (flushPendingEntriesLocked ev tr ?m1) = Inr B \<and> b \<noteq> B)"
      using cs1(2) cs2(2) f Inr by fastforce
    ultimately show ?thesis by blast
  qed
qed

theorem compact_never_deletes_new_block_witness:
  "compactLocked sample_env [] two_block_Manager [sample_id] =
     (None, two_block_Manager\<lparr>blockIDs := [''m00'']\<rparr>,
      [WriteBlock_call [CHR 0x1F, CHR 0x8B, CHR 0x08] ''m'', DeleteBlock_call ''m01''])
   \<and> fst (flushPendingEntriesLocked sample_env []
            (two_block_Manager\<lparr>pendingEntries :=
               pendingEntries two_block_Manager @
                 List.map_filter (entries two_block_Manager) [sample_id]\<rparr>)) = Inr ''m00''
   \<and> ''m00'' \<in> set (blockIDs two_block_Manager)
   \<and> (\<exists>cs. [WriteBlock_call [CHR 0x1F, CHR 0x8B, CHR 0x08] ''m'', DeleteBlock_call ''m01'']
             = [] @ cs \<and> DeleteBlock_call ''m00'' \<notin> set cs)"
proof -
  let ?m1 = "two_block_Manager\<lparr>pendingEntries :=
               pendingEntries two_block_Manager @
                 List.map_filter (entries two_block_Manager) [sample_id]\<rparr>"
  have h: "compactLocked sample_env [] two_block_Manager [sample_id] =
     (None, two_block_Manager\<lparr>blockIDs := [''m00'']\<rparr>,
      [WriteBlock_call [CHR 0x1F, CHR 0x8B, CHR 0x08] ''m'', DeleteBlock_call ''m01''])"
    by (simp add: run_defs sample_env_def two_block_Manager_def)
  have B: "fst (flushPendingEntriesLocked sample_env [] ?m1) = Inr ''m00''"
    by (simp add: run_defs sample_env_def two_block_Manager_def)
  have old: "''m00'' \<in> set (blockIDs two_block_Manager)"
    by (simp add: two_block_Manager_def)
  from compact_never_deletes_new_block [OF h] obtain cs where
    cs: "[WriteBlock_call [CHR 0x1F, CHR 0x8B, CHR 0x08] ''m'', DeleteBlock_call ''m01'']
           = [] @ cs"
      "\<forall>b. DeleteBlock_call b \<in> set cs \<longrightarrow>
         b \<in> set (blockIDs two_block_Manager) \<and>
         (\<exists>B. fst (flushPendingEntriesLocked sample_env [] ?m1) = Inr B \<and> b \<noteq> B)"
    by blast
  from cs(2) B have "DeleteBlock_call ''m00'' \<notin> set cs" by auto
  with cs(1) h B old show ?thesis by blast
qed

text \<open>
  C10. A manager whose index and log are empty and whose list of known blocks does not
  have length one: when \<open>compactLocked\<close> succeeds, the list of known blocks is the
  one-element list holding the empty identifier, and the calls added to the trace are
  the deletions of the known blocks with a non-empty identifier, in order; no block
  has been written.
\<close>

theorem compact_of_empty_manager:
  assumes "entries m = Map.empty" and "pendingEntries m = []"
    and "length (blockIDs m) \<noteq> 1"
    and "compactLocked ev tr m ks = (None, m', tr')"
  shows "blockIDs m' = [[]]
       \<and> tr' = tr @ map DeleteBlock_call (filter (\<lambda>b. b \<noteq> []) (blockIDs m))
       \<and> (\<forall>d p. WriteBlock_call d p \<notin> set (drop (length tr) tr'))"
proof -
  have f: "flushPendingEntriesLocked ev tr
             (m\<lparr>pendingEntries := pendingEntries m @ List.map_filter (entries m) ks\<rparr>)
           = (Inr [], m, tr)"
    using assms(1,2) by (simp add: flushPendingEntriesLocked_def map_filter_empty)
  obtain r3 tr3 where d: "deleteBlocks ev tr (blockIDs m @ [[]]) [] = (r3, tr3)"
    by (cases "deleteBlocks ev tr (blockIDs m @ [[]]) []") auto
  from assms(3,4) f d have r3: "r3 = None" and tr3: "tr' = tr3" and ids: "blockIDs m' = [[]]"
    by (auto simp: compactLocked_def Let_def split: option.splits)
  from deleteBlocks_trace [OF d] r3
  have "tr3 = tr @ map DeleteBlock_call (filter (\<lambda>b. b \<noteq> []) (blockIDs m @ [[]]))"
    by auto
  with tr3 ids show ?thesis by auto
qed

theorem compact_of_empty_manager_witness:
  "entries fresh_Manager = Map.empty \<and> pendingEntries fresh_Manager = []
   \<and> length (blockIDs fresh_Manager) \<noteq> 1
   \<and> compactLocked sample_env [] fresh_Manager [] = (None, fresh_Manager\<lparr>blockIDs := [[]]\<rparr>, [])
   \<and> blockIDs (fresh_Manager\<lparr>blockIDs := [[]]\<rparr>) = [[]]"
proof -
  have h1: "entries fresh_Manager = Map.empty" and h2: "pendingEntries fresh_Manager = []"
    and h3: "length (blockIDs fresh_Manager) \<noteq> 1"
    by (simp_all add: fresh_Manager_def)
  have h4: "compactLocked sample_env [] fresh_Manager [] =
              (None, fresh_Manager\<lparr>blockIDs := [[]]\<rparr>, [])"
    by (simp add: run_defs sample_env_def fresh_Manager_def)
  from compact_of_empty_manager [OF h1 h2 h3 h4] h1 h2 h3 h4 show ?thesis by blast
qed

section \<open>Reading a block\<close>

text \<open>
  C7, as the code has it. The bytes of a fetched block are parsed as an uncompressed
  document exactly when the block is longer than two bytes and its first byte is an
  opening brace; every other block, the two-byte document of an empty object included,
  goes through the gzip reader and then the decoder. Whatever fails (fetch, gzip
  header, either parser), the error quotes the identifier of the block.
\<close>

theorem loadManifestBlock_format:
  assumes "loadManifestBlock ev tr blockID = (r, tr')"
  shows "(\<forall>err. r = Inl err \<longrightarrow> error_blockID err = Some blockID)
       \<and> (\<forall>blk. store_get ev tr blockID = Inr blk \<longrightarrow>
            (if 2 < length blk \<and> blk ! 0 = CHR ''{'' then
               r = (case json_Unmarshal ev blk of
                      Inl msg \<Rightarrow> Inl (UnableToParseBlock blockID (External msg))
                    | Inr man \<Rightarrow> Inr man)
             else
               r = (case gzip_NewReader ev blk of
                      Some msg \<Rightarrow> Inl (UnableToUnpackBlock blockID (External msg))
                    | None \<Rightarrow>
                       (case json_Decode ev blk of
                          Inl msg \<Rightarrow> Inl (UnableToParseBlock blockID (External msg))
                        | Inr man \<Rightarrow> Inr man))))"
  using assms
  by (auto simp: loadManifestBlock_def GetBlock_def split: sum.splits option.splits if_splits)

theorem loadManifestBlock_format_witness:
  "loadManifestBlock sample_env [] ''m01'' =
     (Inr \<lparr>Entries = [sample_live]\<rparr>, [GetBlock_call ''m01''])
   \<and> store_get sample_env [] ''m01'' = Inr sample_block
   \<and> 2 < length sample_block \<and> sample_block ! 0 = CHR ''{''
   \<and> (case json_Unmarshal sample_env sample_block of
         Inl msg \<Rightarrow> Inl (UnableToParseBlock ''m01'' (External msg))
       | Inr man \<Rightarrow> Inr man) = (Inr \<lparr>Entries = [sample_live]\<rparr> :: error + manifest)
   \<and> loadManifestBlock cancelled_get_env [] ''m01'' =
       (Inl (UnableToReadBlock ''m01'' (External ''context canceled'')), [GetBlock_call ''m01''])
   \<and> error_blockID (UnableToReadBlock ''m01'' (External ''context canceled'')) = Some ''m01''"
proof -
  have h: "loadManifestBlock sample_env [] ''m01'' =
             (Inr \<lparr>Entries = [sample_live]\<rparr>, [GetBlock_call ''m01''])"
    by (simp add: run_defs sample_env_def sample_block_def)
  have g: "store_get sample_env [] ''m01'' = Inr sample_block"
    by (simp add: sample_env_def)
  have l: "2 < length sample_block" "sample_block ! 0 = CHR ''{''"
    by (simp_all add: sample_block_def)
  have c: "loadManifestBlock cancelled_get_env [] ''m01'' =
       (Inl (UnableToReadBlock ''m01'' (External ''context canceled'')), [GetBlock_call ''m01''])"
    by (simp add: run_defs cancelled_get_env_def sample_env_def)
  from loadManifestBlock_format [OF h] g l
  have j: "(case json_Unmarshal sample_env sample_block of
         Inl msg \<Rightarrow> Inl (UnableToParseBlock ''m01'' (External msg))
       | Inr man \<Rightarrow> Inr man) = (Inr \<lparr>Entries = [sample_live]\<rparr> :: error + manifest)"
    by simp
  from loadManifestBlock_format [OF c]
  have e: "error_blockID (UnableToReadBlock ''m01'' (External ''context canceled'')) = Some ''m01''"
    by blast
  from h g l j c e show ?thesis by blast
qed

text \<open>
  C7, as it is written, fails for a block of two bytes: the block \<^verbatim>\<open>{}\<close> starts with
  an opening brace and the parser of uncompressed documents accepts it, but the manager
  hands it to the gzip reader, which refuses it, and the block is reported as
  impossible to unpack.
\<close>

theorem loadManifestBlock_short_counterexample:
  "''{}'' ! 0 = CHR ''{''
   \<and> store_get short_block_env [] ''m01'' = Inr ''{}''
   \<and> json_Unmarshal short_block_env ''{}'' = Inr \<lparr>Entries = []\<rparr>
   \<and> loadManifestBlock short_block_env [] ''m01'' =
       (Inl (UnableToUnpackBlock ''m01'' (External ''unexpected EOF'')), [GetBlock_call ''m01''])"
  by (simp add: loadManifestBlock_def GetBlock_def short_block_env_def sample_env_def
      sample_block_def)

section \<open>Load and failure\<close>

lemma loadManifestBlocks_failure:
  assumes "loadManifestBlocks ev tr m blocks sched = (Some err, m', tr')"
  shows "m' = m\<lparr>blockIDs := blockIDs m @ map BlockID blocks\<rparr>"
  using assms
  by (auto simp: loadManifestBlocks_def Let_def split: sum.splits prod.splits)

lemma removeDeleted_live:
  "entries (removeDeleted m) i = Some e \<Longrightarrow> \<not> Deleted e"
  by (auto simp: removeDeleted_def split: option.splits if_splits)

lemma loadManifestBlocks_success:
  assumes "loadManifestBlocks ev tr m blocks sched = (None, m', tr')"
  shows "\<exists>m0. m' = removeDeleted m0"
  using assms
  by (auto simp: loadManifestBlocks_def Let_def split: sum.splits prod.splits)

lemma load_failure:
  assumes "load ev tr m sched ks = (Some err, m', tr')"
  shows "((\<forall>e. err \<noteq> UnableToListManifestBlocks e \<and> err \<noteq> UnableToLoadManifestBlocks e
               \<and> err \<noteq> UnableToCompactManifestBlocks e
               \<and> err \<noteq> UnableToFlushBlocksAfterAutoCompaction e) \<longrightarrow> m' = m)
       \<and> ((\<exists>e. err = UnableToListManifestBlocks e \<or> err = UnableToLoadManifestBlocks e)
            \<longrightarrow> entries m' = Map.empty)"
proof -
  obtain r1 m1 tr1 where f: "Flush ev tr m = (r1, m1, tr1)"
    by (cases "Flush ev tr m") auto
  show ?thesis
  proof (cases r1)
    case (Some e1)
    with f assms have "err = e1" "m' = m1" by (simp_all add: load_def)
    with Flush_failure [of ev tr m e1 m1 tr1] f Some show ?thesis by auto
  next
    case None
    let ?m2 = "m1\<lparr>entries := Map.empty\<rparr>"
    obtain r2 tr2 where l: "ListBlocks ev tr1 manifestBlockPrefix = (r2, tr2)"
      by (cases "ListBlocks ev tr1 manifestBlockPrefix") auto
    show ?thesis
    proof (cases r2)
      case (Inl e2)
      with f None l assms show ?thesis by (auto simp: load_def)
    next
      case (Inr blocks)
      obtain r3 m3 tr3 where b: "loadManifestBlocks ev tr2 ?m2 blocks sched = (r3, m3, tr3)"
        by (cases "loadManifestBlocks ev tr2 ?m2 blocks sched") auto
      show ?thesis
      proof (cases r3)
        case (Some e3)
        from loadManifestBlocks_failure [OF b [unfolded Some]] have "entries m3 = Map.empty"
          by simp
        with f None l Inr b Some assms show ?thesis by (auto simp: load_def)
      next
        case None3: None
        from f None l Inr b None3 assms show ?thesis
          by (auto simp: load_def Let_def split: if_splits option.splits prod.splits)
      qed
    qed
  qed
qed

lemma Put_failure: "Put m lbls rnd js now = (Inl err, m') \<Longrightarrow> m' = m"
  by (auto simp: Put_def Let_def split: if_splits sum.splits)

text \<open>
  C3, as the code has it. When \<open>load\<close> fails with an error that is none of its own four
  wrappers, the failure is that of its first step, the flush, and the manager is the one
  it was on entry. When \<open>load\<close> fails with the error of listing or of loading the
  blocks (a fetch, a gzip header, a parse), the index is empty afterwards: this is the
  index on entry when \<open>load\<close> is entered with an empty index, as \<^verbatim>\<open>NewManager\<close>, the
  only caller, does. A failing \<open>Flush\<close> and a failing \<open>Put\<close> leave the manager as it
  was on entry. Nothing is said about the known blocks after a failing \<open>load\<close>, nor
  about a failing compaction.
\<close>

theorem failed_load_state:
  "(load ev tr m sched ks = (Some err, m', tr') \<longrightarrow>
      ((\<forall>e. err \<noteq> UnableToListManifestBlocks e \<and> err \<noteq> UnableToLoadManifestBlocks e
               \<and> err \<noteq> UnableToCompactManifestBlocks e
               \<and> err \<noteq> UnableToFlushBlocksAfterAutoCompaction e) \<longrightarrow> m' = m)
       \<and> ((\<exists>e. err = UnableToListManifestBlocks e \<or> err = UnableToLoadManifestBlocks e)
            \<longrightarrow> entries m' = Map.empty \<and> (entries m = Map.empty \<longrightarrow> entries m' = entries m)))
   \<and> (Flush ev tr m = (Some err, m', tr') \<longrightarrow> m' = m)
   \<and> (Put m lbls rnd js now = (Inl err, m') \<longrightarrow> m' = m)"
  using load_failure [of ev tr m sched ks err m' tr'] Flush_failure [of ev tr m err m' tr']
    Put_failure [of m lbls rnd js now err m']
  by auto

theorem failed_load_state_witness:
  "load cancelled_get_env [] fresh_Manager (\<lambda>xs. xs) [] =
     (Some (UnableToLoadManifestBlocks
              (UnableToReadBlock ''m01'' (External ''context canceled''))),
      fresh_Manager\<lparr>blockIDs := [''m01'']\<rparr>, [ListBlocks_call ''m'', GetBlock_call ''m01''])
   \<and> entries fresh_Manager = Map.empty
   \<and> entries (fresh_Manager\<lparr>blockIDs := [''m01'']\<rparr>) = entries fresh_Manager
   \<and> load cancelled_write_env [] pending_Manager (\<lambda>xs. xs) [] =
       (Some (External ''context canceled''), pending_Manager,
        [WriteBlock_call [CHR 0x1F, CHR 0x8B, CHR 0x08] ''m''])"
proof -
  have h: "load cancelled_get_env [] fresh_Manager (\<lambda>xs. xs) [] =
     (Some (UnableToLoadManifestBlocks
              (UnableToReadBlock ''m01'' (External ''context canceled''))),
      fresh_Manager\<lparr>blockIDs := [''m01'']\<rparr>, [ListBlocks_call ''m'', GetBlock_call ''m01''])"
    by (simp add: run_defs cancelled_get_env_def sample_env_def fresh_Manager_def)
  have e: "entries fresh_Manager = Map.empty"
    by (simp add: fresh_Manager_def)
  have f: "load cancelled_write_env [] pending_Manager (\<lambda>xs. xs) [] =
       (Some (External ''context canceled''), pending_Manager,
        [WriteBlock_call [CHR 0x1F, CHR 0x8B, CHR 0x08] ''m''])"
    by (simp add: run_defs cancelled_write_env_def sample_env_def pending_Manager_def)
  from failed_load_state [of cancelled_get_env "[]" fresh_Manager "\<lambda>xs. xs" "[]"
      "UnableToLoadManifestBlocks (UnableToReadBlock ''m01'' (External ''context canceled''))"
      "fresh_Manager\<lparr>blockIDs := [''m01'']\<rparr>" "[ListBlocks_call ''m'', GetBlock_call ''m01'']"]
    h e
  have "entries (fresh_Manager\<lparr>blockIDs := [''m01'']\<rparr>) = entries fresh_Manager"
    by blast
  with h e f show ?thesis by blast
qed

text \<open>
  C3, as it is written, fails. \<^verbatim>\<open>NewManager\<close>'s fresh manager, a store that lists one
  block and a fetch that is cancelled: \<open>load\<close> fails and the list of known blocks, empty
  on entry, now holds the listed identifier. A manager with an entry in its index and
  a listing that is cancelled: \<open>load\<close> fails and the index, which held the entry on
  entry, is empty. A manager with two known blocks and a compaction whose write is
  cancelled: \<open>Compact\<close> fails and the log, empty on entry, now holds the entry of the
  index.
\<close>

theorem failed_load_counterexample:
  "load cancelled_get_env [] fresh_Manager (\<lambda>xs. xs) [] =
     (Some (UnableToLoadManifestBlocks
              (UnableToReadBlock ''m01'' (External ''context canceled''))),
      fresh_Manager\<lparr>blockIDs := [''m01'']\<rparr>, [ListBlocks_call ''m'', GetBlock_call ''m01''])
   \<and> blockIDs fresh_Manager = []
   \<and> blockIDs (fresh_Manager\<lparr>blockIDs := [''m01'']\<rparr>) = [''m01'']
   \<and> load cancelled_list_env [] sample_Manager (\<lambda>xs. xs) [] =
       (Some (UnableToListManifestBlocks (External ''context canceled'')),
        sample_Manager\<lparr>entries := Map.empty\<rparr>, [ListBlocks_call ''m''])
   \<and> entries sample_Manager sample_id = Some sample_live
   \<and> entries (sample_Manager\<lparr>entries := Map.empty\<rparr>) sample_id = None
   \<and> Compact cancelled_write_env [] two_block_Manager [sample_id] =
       (Some (External ''context canceled''),
        two_block_Manager\<lparr>pendingEntries := [sample_live]\<rparr>,
        [WriteBlock_call [CHR 0x1F, CHR 0x8B, CHR 0x08] ''m''])
   \<and> pendingEntries two_block_Manager = []"
proof -
  have 1: "load cancelled_get_env [] fresh_Manager (\<lambda>xs. xs) [] =
     (Some (UnableToLoadManifestBlocks
              (UnableToReadBlock ''m01'' (External ''context canceled''))),
      fresh_Manager\<lparr>blockIDs := [''m01'']\<rparr>, [ListBlocks_call ''m'', GetBlock_call ''m01''])"
    by (simp add: run_defs cancelled_get_env_def sample_env_def fresh_Manager_def)
  have 2: "blockIDs fresh_Manager = []" "blockIDs (fresh_Manager\<lparr>blockIDs := [''m01'']\<rparr>) = [''m01'']"
    by (simp_all add: fresh_Manager_def)
  have 3: "load cancelled_list_env [] sample_Manager (\<lambda>xs. xs) [] =
       (Some (UnableToListManifestBlocks (External ''context canceled'')),
        sample_Manager\<lparr>entries := Map.empty\<rparr>, [ListBlocks_call ''m''])"
    by (simp add: run_defs cancelled_list_env_def sample_env_def sample_Manager_def)
  have 4: "entries sample_Manager sample_id = Some sample_live"
    "entries (sample_Manager\<lparr>entries := Map.empty\<rparr>) sample_id = None"
    by (simp_all add: sample_Manager_def)
  have 5: "Compact cancelled_write_env [] two_block_Manager [sample_id] =
       (Some (External ''context canceled''),
        two_block_Manager\<lparr>pendingEntries := [sample_live]\<rparr>,
        [WriteBlock_call [CHR 0x1F, CHR 0x8B, CHR 0x08] ''m''])"
    by (simp add: run_defs cancelled_write_env_def sample_env_def two_block_Manager_def)
  have 6: "pendingEntries two_block_Manager = []"
    by (simp add: two_block_Manager_def)
  from 1 2 3 4 5 6 show ?thesis by blast
qed

section \<open>The index holds no tombstone\<close>

lemma load_success_live:
  assumes "load ev tr m sched ks = (None, m', tr')"
  shows "\<forall>i e. entries m' i = Some e \<longrightarrow> \<not> Deleted e"
proof -
  obtain r1 m1 tr1 where f: "Flush ev tr m = (r1, m1, tr1)"
    by (cases "Flush ev tr m") auto
  with assms have r1: "r1 = None" by (cases r1) (auto simp: load_def)
  let ?m2 = "m1\<lparr>entries := Map.empty\<rparr>"
  obtain r2 tr2 where l: "ListBlocks ev tr1 manifestBlockPrefix = (r2, tr2)"
    by (cases "ListBlocks ev tr1 manifestBlockPrefix") auto
  with f r1 assms obtain blocks where r2: "r2 = Inr blocks"
    by (cases r2) (auto simp: load_def)
  obtain r3 m3 tr3 where b: "loadManifestBlocks ev tr2 ?m2 blocks sched = (r3, m3, tr3)"
    by (cases "loadManifestBlocks ev tr2 ?m2 blocks sched") auto
  with f r1 l r2 assms have r3: "r3 = None" by (cases r3) (auto simp: load_def)
  from loadManifestBlocks_success [OF b [unfolded r3]] removeDeleted_live
  have live3: "\<forall>i e. entries m3 i = Some e \<longrightarrow> \<not> Deleted e" by blast
  show ?thesis
  proof (cases "length blocks > autoCompactionBlockCount")
    case False
    with f r1 l r2 b r3 assms have "m' = m3" by (auto simp: load_def)
    with live3 show ?thesis by simp
  next
    case True
    obtain r4 m4 tr4 where c: "compactLocked ev tr3 m3 ks = (r4, m4, tr4)"
      by (cases "compactLocked ev tr3 m3 ks") auto
    with True f r1 l r2 b r3 assms have "m' = m4"
      by (auto simp: load_def split: option.splits prod.splits)
    with compactLocked_entries [OF c] live3 show ?thesis by simp
  qed
qed

lemma step_live:
  assumes "\<forall>i e. entries (fst s) i = Some e \<longrightarrow> \<not> Deleted e"
  shows "\<forall>i e. entries (fst (step ev x s)) i = Some e \<longrightarrow> \<not> Deleted e"
proof (cases s)
  case (Pair m tr)
  show ?thesis
  proof (cases x)
    case (Put_op lbls rnd js now)
    with Pair assms show ?thesis
      by (auto simp: Put_def Let_def split: if_splits sum.splits)
  next
    case (Delete_op i now)
    with Pair assms show ?thesis by (auto simp: Delete_def split: if_splits)
  next
    case Flush_op
    obtain r m' tr' where f: "Flush ev tr m = (r, m', tr')" by (cases "Flush ev tr m") auto
    from Flush_entries [OF f] f Flush_op Pair assms show ?thesis by simp
  next
    case (Compact_op ks)
    obtain r m' tr' where c: "compactLocked ev tr m ks = (r, m', tr')"
      by (cases "compactLocked ev tr m ks") auto
    from compactLocked_entries [OF c] c Compact_op Pair assms show ?thesis
      by (simp add: Compact_def)
  qed (use Pair assms in simp_all)
qed

lemma run_live:
  assumes "\<forall>i e. entries (fst s) i = Some e \<longrightarrow> \<not> Deleted e"
  shows "\<forall>i e. entries (fst (run ev ops s)) i = Some e \<longrightarrow> \<not> Deleted e"
  using assms unfolding run_def
proof (induction ops arbitrary: s)
  case Nil
  then show ?case by simp
next
  case (Cons x ops)
  from Cons.IH [OF step_live [OF Cons.prems]] show ?case by simp
qed

text \<open>
  C9. A manager returned by \<^verbatim>\<open>NewManager\<close>, and then any sequence of public operations
  on it, each succeeding or failing as the collaborators decide: at every boundary, no
  entry of the index is marked deleted. The manager that \<^verbatim>\<open>NewManager\<close> returns is the
  case of the empty sequence.
\<close>

theorem index_never_holds_tombstone:
  assumes "NewManager ev tr sched ks = (Inr m, tr')"
  shows "\<forall>i e. entries (fst (run ev ops (m, tr'))) i = Some e \<longrightarrow> \<not> Deleted e"
proof -
  from assms
  have "load ev tr \<lparr>entries = Map.empty, blockIDs = [], pendingEntries = []\<rparr> sched ks
          = (None, m, tr')"
    by (auto simp: NewManager_def Let_def split: option.splits prod.splits)
  from load_success_live [OF this]
  have "\<forall>i e. entries (fst (m, tr')) i = Some e \<longrightarrow> \<not> Deleted e"
    by simp
  from run_live [OF this] show ?thesis .
qed

theorem index_never_holds_tombstone_witness:
  "NewManager sample_env [] (\<lambda>xs. xs) [] =
     (Inr sample_Manager, [ListBlocks_call ''m'', GetBlock_call ''m01''])
   \<and> entries (fst (run sample_env
        [Put_op [(''type'', ''policy'')] (Inr sample_random) (Inr ''{}'') 3,
         Delete_op sample_id 4, Flush_op, Compact_op [''101112131415161718191a1b1c1d1e1f'']]
        (sample_Manager, [ListBlocks_call ''m'', GetBlock_call ''m01'']))) ''101112131415161718191a1b1c1d1e1f''
       = Some \<lparr>ID = ''101112131415161718191a1b1c1d1e1f'', ModTime = 3, Labels = [(''type'', ''policy'')], Deleted = False,
               Content = ''{}''\<rparr>
   \<and> \<not> Deleted \<lparr>ID = ''101112131415161718191a1b1c1d1e1f'', ModTime = 3, Labels = [(''type'', ''policy'')], Deleted = False,
                 Content = ''{}''\<rparr>"
proof -
  let ?ops = "[Put_op [(''type'', ''policy'')] (Inr sample_random) (Inr ''{}'') 3,
         Delete_op sample_id 4, Flush_op, Compact_op [''101112131415161718191a1b1c1d1e1f'']]"
  let ?e = "\<lparr>ID = ''101112131415161718191a1b1c1d1e1f'', ModTime = 3, Labels = [(''type'', ''policy'')], Deleted = False,
               Content = ''{}''\<rparr>"
  have h: "NewManager sample_env [] (\<lambda>xs. xs) [] =
     (Inr sample_Manager, [ListBlocks_call ''m'', GetBlock_call ''m01''])"
    by (simp add: run_defs sample_env_def sample_Manager_def sample_block_def sample_live_def
        sample_id_def fun_eq_iff)
  have r: "entries (fst (run sample_env ?ops
             (sample_Manager, [ListBlocks_call ''m'', GetBlock_call ''m01'']))) ''101112131415161718191a1b1c1d1e1f'' = Some ?e"
    by (simp add: run_def run_defs Put_def Delete_def label_def copyLabels_def
        hex_EncodeToString_def hexdigit_def sample_random_def sample_env_def sample_Manager_def sample_live_def
        sample_id_def)
  from index_never_holds_tombstone [OF h, of ?ops] r have "\<not> Deleted ?e"
    by blast
  with h r show ?thesis by blast
qed

end
